theory Spec2Isabelle
  imports Main "HOL-Library.Signed_Division"
begin

section \<open>Python values used by the notebook\<close>

text \<open>
  The notebook \<^verbatim>\<open>examples/ai4se-fine-tuning.ipynb\<close> works on Python lists of
  (unbounded) integers. Token ids are \<^typ>\<open>int\<close>, a token sequence is an
  \<^typ>\<open>int list\<close>. The exceptions that the modelled cells can raise are values of
  \<open>py_error\<close>.
\<close>

datatype py_error = ZeroDivisionError | ValueError | AssertionError

text \<open>
  Python's \<^verbatim>\<open>range(start, stop, step)\<close>, as a list. A step of zero raises
  \<^verbatim>\<open>ValueError\<close>; otherwise the length is the one CPython computes.
\<close>

definition py_range :: "int \<Rightarrow> int \<Rightarrow> int \<Rightarrow> py_error + int list" where
  "py_range start stop step =
     (if step = 0 then Inl ValueError
      else if 0 < step
        then Inr (map (\<lambda>k. start + int k * step) [0 ..< nat ((stop - start + step - 1) div step)])
        else Inr (map (\<lambda>k. start + int k * step) [0 ..< nat ((start - stop - step - 1) div (- step))]))"

text \<open>
  Slice bounds: a negative bound counts from the end, and every bound is clipped to
  \<open>0 .. len\<close>.
\<close>

definition py_bound :: "int \<Rightarrow> int \<Rightarrow> nat" where
  "py_bound n i = (if i < 0 then nat (max 0 (n + i)) else nat (min n i))"

text \<open>\<^verbatim>\<open>xs[i:j]\<close>\<close>

definition py_slice :: "'a list \<Rightarrow> int \<Rightarrow> int \<Rightarrow> 'a list" where
  "py_slice xs i j =
     (let n = int (length xs); lo = py_bound n i; hi = py_bound n j
      in take (hi - lo) (drop lo xs))"

text \<open>\<^verbatim>\<open>xs[i:]\<close>\<close>

definition py_slice_from :: "'a list \<Rightarrow> int \<Rightarrow> 'a list" where
  "py_slice_from xs i = drop (py_bound (int (length xs)) i) xs"

text \<open>\<^verbatim>\<open>[x] * k\<close>: a count below one gives the empty list.\<close>

definition py_repeat :: "'a \<Rightarrow> int \<Rightarrow> 'a list" where
  "py_repeat x k = replicate (nat k) x"

section \<open>Tokenizing and block packing\<close>

text \<open>
  Both \<^verbatim>\<open>tokenize\<close> and \<^verbatim>\<open>block\<close> return a dictionary with the keys
  \<^verbatim>\<open>'input_ids'\<close> and \<^verbatim>\<open>'labels'\<close>. For \<^verbatim>\<open>tokenize\<close> the values are
  token sequences, for \<^verbatim>\<open>block\<close> (which \<^verbatim>\<open>map(block, batched=True)\<close> calls on
  a batch of rows) they are lists of token sequences.
\<close>

record 'a columns =
  input_ids :: 'a
  labels :: 'a

type_synonym row = "int list columns"
type_synonym batch = "int list list columns"

text \<open>
  The tokenizer is a global of the notebook, loaded from a pretrained checkpoint. The
  two things the cells use, \<^verbatim>\<open>tokenizer.encode\<close> and
  \<^verbatim>\<open>tokenizer.eos_token_id\<close>, are parameters here. A row of the dataset
  before tokenizing has the single column \<^verbatim>\<open>'source'\<close>.

  \<^verbatim>\<open>
  def tokenize(dataset_row):
      source = dataset_row['source']
      input_ids = tokenizer.encode(source) + [tokenizer.eos_token_id]
      labels = input_ids.copy()
      return {'input_ids': input_ids, 'labels': labels}
  \<close>
\<close>

record dataset_row =
  source :: string

definition tokenize :: "(string \<Rightarrow> int list) \<Rightarrow> int \<Rightarrow> dataset_row \<Rightarrow> row" where
  "tokenize encode eos_token_id dataset_row =
     (let src = source dataset_row;
          ids = encode src @ [eos_token_id];
          lbls = ids
      in \<lparr>input_ids = ids, labels = lbls\<rparr>)"

text \<open>
  \<^verbatim>\<open>
  def block(data, block_size=128):
      concatenated = sum(data['input_ids'], [])
      length = len(concatenated)
      truncated_length = (length // block_size) * block_size
      blocked_ids = [concatenated[i : i + block_size]
                     for i in range(0, truncated_length, block_size)]
      pad_length = block_size - (length % block_size)
      if pad_length != block_size:
          blocked_ids += [concatenated[truncated_length:]
                          + [tokenizer.eos_token_id] * pad_length]
      assert len(blocked_ids) > 0
      return {'input_ids': blocked_ids, 'labels': blocked_ids.copy()}
  \<close>
  \<open>block_size\<close> is a Python integer, so it is an \<^typ>\<open>int\<close> here; \<open>//\<close> and
  \<open>%\<close> round towards minus infinity, as \<open>div\<close> and \<open>mod\<close> on \<^typ>\<open>int\<close>
  do, and raise on a zero divisor.
\<close>

definition default_block_size :: int where
  "default_block_size = 128"

definition block :: "int \<Rightarrow> batch \<Rightarrow> int \<Rightarrow> py_error + batch" where
  "block eos_token_id data block_size =
     (let concatenated = concat (input_ids data);
          len = int (length concatenated)
      in if block_size = 0 then Inl ZeroDivisionError
         else
           let truncated_length = (len div block_size) * block_size
           in case py_range 0 truncated_length block_size of
                Inl e \<Rightarrow> Inl e
              | Inr offsets \<Rightarrow>
                  let full_ids = map (\<lambda>i. py_slice concatenated i (i + block_size)) offsets;
                      pad_length = block_size - (len mod block_size);
                      blocked_ids =
                        (if pad_length \<noteq> block_size
                         then full_ids @ [py_slice_from concatenated truncated_length
                                            @ py_repeat eos_token_id pad_length]
                         else full_ids)
                  in if 0 < length blocked_ids
                     then Inr \<lparr>input_ids = blocked_ids, labels = blocked_ids\<rparr>
                     else Inl AssertionError)"

section \<open>The launch script\<close>

text \<open>
  \<^verbatim>\<open>run.sh\<close> sets defaults, overrides them from the command line, derives three
  more variables and starts the container:
  \<^verbatim>\<open>
  export AI_GROUP=1
  export AI_LOGIN=set_notebook_password
  if [[ $# -eq 1 ]] ; then export AI_GROUP=$1; fi
  if [[ $# -eq 2 ]] ; then export AI_GROUP=$1; export AI_LOGIN=$2; fi
  export AI_GPU=$((AI_GROUP % 4))
  export AI_PORT=$((8000 + AI_GROUP))
  export AI_CONTAINER_NAME=ai4se-$AI_GROUP
  export AI_CACHE_DIR=/var/opt/huggingface
  \<close>
  The state of the script is the set of variables it exports. Shell variables are
  strings. An arithmetic expansion yields an integer, or fails: the shell then prints an
  error, does not run that \<^verbatim>\<open>export\<close>, and goes on with the next line, so the
  variable stays without a value (\<open>None\<close>).
\<close>

record launch_env =
  AI_GROUP :: string
  AI_LOGIN :: string
  AI_GPU :: "int option"
  AI_PORT :: "int option"
  AI_CONTAINER_NAME :: string
  AI_CACHE_DIR :: string

text \<open>
  Shell arithmetic is done on 64-bit signed integers: a result wraps around, and
  \<open>%\<close> is the remainder of the division that truncates towards zero
  (\<open>smod\<close>).
\<close>

definition sh_int :: "int \<Rightarrow> int" where
  "sh_int k = signed_take_bit 63 k"

text \<open>
  Inside \<^verbatim>\<open>$(( ))\<close> the shell evaluates the text of \<^verbatim>\<open>AI_GROUP\<close>. A text made
  of digits only is an integer constant: decimal, unless it starts with \<^verbatim>\<open>0\<close>, which
  makes it octal, and then a digit \<^verbatim>\<open>8\<close> or \<^verbatim>\<open>9\<close> is an error (``value too great
  for base''). A constant too large for 64 bits wraps around.
\<close>

definition is_digit :: "char \<Rightarrow> bool" where
  "is_digit c = (48 \<le> (of_char c :: nat) \<and> (of_char c :: nat) \<le> 57)"

definition is_octal_digit :: "char \<Rightarrow> bool" where
  "is_octal_digit c = (48 \<le> (of_char c :: nat) \<and> (of_char c :: nat) \<le> 55)"

definition radix_value :: "int \<Rightarrow> string \<Rightarrow> int" where
  "radix_value base s = foldl (\<lambda>a c. base * a + (of_char c - 48)) 0 s"

definition sh_constant :: "string \<Rightarrow> int option" where
  "sh_constant s =
     (case s of
        [] \<Rightarrow> None
      | c # cs \<Rightarrow>
          if c = CHR ''0''
          then (if list_all is_octal_digit cs then Some (sh_int (radix_value 8 s)) else None)
          else Some (sh_int (radix_value 10 s)))"

text \<open>
  Every other text (a name, a signed number, another base, an expression, the empty
  text) is evaluated by the shell's expression evaluator, which is the parameter
  \<open>sh_expr\<close> of the model; it is never consulted for a text made of digits.
\<close>

definition sh_arith :: "(string \<Rightarrow> int option) \<Rightarrow> string \<Rightarrow> int option" where
  "sh_arith sh_expr s =
     (if s \<noteq> [] \<and> list_all is_digit s then sh_constant s else sh_expr s)"

text \<open>The positional parameters are the list \<open>argv\<close>.\<close>

definition run_sh :: "(string \<Rightarrow> int option) \<Rightarrow> string list \<Rightarrow> launch_env" where
  "run_sh sh_expr argv =
     (let group0 = ''1'';
          login0 = ''set_notebook_password'';
          group1 = (if length argv = 1 then argv ! 0 else group0);
          group2 = (if length argv = 2 then argv ! 0 else group1);
          login2 = (if length argv = 2 then argv ! 1 else login0)
      in \<lparr>AI_GROUP = group2,
          AI_LOGIN = login2,
          AI_GPU = map_option (\<lambda>v. sh_int (v smod 4)) (sh_arith sh_expr group2),
          AI_PORT = map_option (\<lambda>v. sh_int (8000 + v)) (sh_arith sh_expr group2),
          AI_CONTAINER_NAME = ''ai4se-'' @ group2,
          AI_CACHE_DIR = ''/var/opt/huggingface''\<rparr>)"

section \<open>Python helpers on the inputs that block packing gives them\<close>

lemma py_range_pos:
  assumes "0 < bs"
  shows "py_range 0 (int q * bs) bs = Inr (map (\<lambda>k. int k * bs) [0 ..< q])"
proof -
  have "(int q * bs + bs - 1) div bs = (bs - 1 + int q * bs) div bs"
    by (simp add: algebra_simps)
  also have "\<dots> = (bs - 1) div bs + int q"
    using assms by simp
  also have "(bs - 1) div bs = 0"
    using assms by (simp add: div_pos_pos_trivial)
  finally have "nat ((int q * bs - 0 + bs - 1) div bs) = q"
    by simp
  then show ?thesis
    using assms by (simp add: py_range_def)
qed

lemma py_slice_nonneg:
  assumes "0 \<le> i" and "0 \<le> j"
  shows "py_slice xs i (i + j) = take (nat j) (drop (nat i) xs)"
proof (cases "int (length xs) \<le> i")
  case True
  then show ?thesis
    using assms by (simp add: py_slice_def py_bound_def Let_def)
next
  case False
  then have lo: "py_bound (int (length xs)) i = nat i"
    using assms by (simp add: py_bound_def min_def)
  have hi: "py_bound (int (length xs)) (i + j) = min (length xs) (nat i + nat j)"
    using assms by (auto simp add: py_bound_def min_def nat_add_distrib)
  have "take (min (length xs) (nat i + nat j) - nat i) (drop (nat i) xs)
        = take (nat j) (drop (nat i) xs)"
    by (cases "length xs \<le> nat i + nat j") (simp_all add: min_def)
  then show ?thesis
    by (simp add: py_slice_def Let_def lo hi)
qed

lemma py_slice_from_nonneg:
  assumes "0 \<le> i"
  shows "py_slice_from xs i = drop (nat i) xs"
proof (cases "int (length xs) \<le> i")
  case True
  then show ?thesis using assms by (simp add: py_slice_from_def py_bound_def)
next
  case False
  then show ?thesis using assms by (simp add: py_slice_from_def py_bound_def min_def)
qed

section \<open>Block packing with a positive block size\<close>

text \<open>
  With \<open>0 < block_size\<close> every index that \<^verbatim>\<open>block\<close> computes is non-negative,
  and the function can be read on natural numbers: \<open>n div b\<close> slices of width
  \<open>b\<close>, then the rest and its padding when \<open>n mod b\<close> is not zero.
\<close>

lemma block_pos:
  assumes "0 < bs"
  shows "block eos data bs =
    (let xs = concat (input_ids data); b = nat bs; n = length xs;
         blocks = map (\<lambda>k. take b (drop (k * b) xs)) [0 ..< n div b] @
                  (if n mod b = 0 then []
                   else [drop (n div b * b) xs @ replicate (b - n mod b) eos])
     in if blocks = [] then Inl AssertionError
        else Inr \<lparr>input_ids = blocks, labels = blocks\<rparr>)"
proof -
  define xs where "xs = concat (input_ids data)"
  define b where "b = nat bs"
  define n where "n = length xs"
  define q where "q = n div b"
  have bs: "bs = int b" and b: "0 < b"
    using assms by (simp_all add: b_def)
  have d: "int n div bs = int q"
    by (simp add: bs q_def zdiv_int)
  have m: "int n mod bs = int (n mod b)"
    by (simp add: bs zmod_int)
  have r: "py_range 0 (int q * bs) bs = Inr (map (\<lambda>k. int k * bs) [0 ..< q])"
    using assms by (rule py_range_pos)
  have s: "py_slice xs (int k * bs) (int k * bs + bs) = take b (drop (k * b) xs)" for k
    using py_slice_nonneg [of "int k * bs" bs xs] assms
    by (simp add: bs nat_mult_distrib)
  have f: "py_slice_from xs (int q * bs) = drop (q * b) xs"
    using py_slice_from_nonneg [of "int q * bs" xs] assms
    by (simp add: bs nat_mult_distrib)
  have p: "py_repeat eos (bs - int (n mod b)) = replicate (b - n mod b) eos"
    by (simp add: py_repeat_def bs nat_diff_distrib')
  have "block eos data bs =
    (let blocks = map (\<lambda>k. take b (drop (k * b) xs)) [0 ..< q] @
                  (if n mod b = 0 then []
                   else [drop (q * b) xs @ replicate (b - n mod b) eos])
     in if blocks = [] then Inl AssertionError
        else Inr \<lparr>input_ids = blocks, labels = blocks\<rparr>)"
    using assms
    unfolding block_def Let_def xs_def [symmetric] n_def [symmetric] d m r
    by (simp add: s f p comp_def)
  then show ?thesis
    by (simp add: Let_def xs_def b_def n_def q_def)
qed

lemma concat_slices:
  "concat (map (\<lambda>k. take b (drop (k * b) xs)) [0 ..< q]) = take (q * b) xs"
proof (induction q)
  case 0
  show ?case by simp
next
  case (Suc q)
  have "take (q * b + b) xs = take (q * b) xs @ take b (drop (q * b) xs)"
    by (rule take_add)
  with Suc show ?case
    by (simp add: add.commute)
qed

lemma slice_length:
  assumes "k < length xs div b"
  shows "length (take b (drop (k * b) xs)) = b"
proof -
  have "Suc k * b \<le> (length xs div b) * b"
    using assms by (intro mult_le_mono1) simp
  also have "\<dots> \<le> length xs"
    by simp
  finally show ?thesis
    by simp
qed

lemma rest_length:
  "length (drop (length xs div b * b) xs) = length xs mod b"
  by (simp add: minus_div_mult_eq_mod)

lemma block_empty_stream:
  assumes "concat (input_ids data) = []"
  shows "block eos data bs = Inl (if bs = 0 then ZeroDivisionError else AssertionError)"
proof (cases "0 < bs")
  case True
  then have "bs \<noteq> 0"
    by simp
  with block_pos [OF True, of eos data] show ?thesis
    unfolding assms Let_def by simp
next
  case False
  have "bs < 0 \<Longrightarrow> (- bs - 1) div (- bs) = 0"
    by (simp add: div_pos_pos_trivial)
  with False show ?thesis
    unfolding block_def assms Let_def by (auto simp add: py_range_def)
qed

lemma block_returns:
  assumes "0 < bs" and "concat (input_ids data) \<noteq> []"
  shows "\<exists>out. block eos data bs = Inr out"
proof -
  define n where "n = length (concat (input_ids data))"
  define b where "b = nat bs"
  have "0 < n" "0 < b"
    using assms by (simp_all add: n_def b_def)
  then have "n mod b = 0 \<Longrightarrow> 0 < n div b"
    by (metis div_greater_zero_iff mod_less neq0_conv not_le)
  then show ?thesis
    using assms(1) by (auto simp add: block_pos Let_def n_def b_def)
qed

lemma block_stream:
  assumes "0 < bs" and "block eos data bs = Inr out"
  shows "concat (input_ids out) = concat (input_ids data)
           @ replicate ((nat bs - length (concat (input_ids data)) mod nat bs) mod nat bs) eos"
proof -
  define xs where "xs = concat (input_ids data)"
  define b where "b = nat bs"
  define n where "n = length xs"
  have b: "0 < b" using assms(1) by (simp add: b_def)
  have out: "input_ids out = map (\<lambda>k. take b (drop (k * b) xs)) [0 ..< n div b] @
                  (if n mod b = 0 then []
                   else [drop (n div b * b) xs @ replicate (b - n mod b) eos])"
    using assms by (auto simp add: block_pos Let_def xs_def b_def n_def split: if_splits)
  show ?thesis
  proof (cases "n mod b = 0")
    case True
    then have "n div b * b = n" by auto
    with True show ?thesis
      unfolding xs_def [symmetric] b_def [symmetric] n_def [symmetric] out
      by (simp add: concat_slices n_def)
  next
    case False
    then have "(b - n mod b) mod b = b - n mod b"
      using b by simp
    with False show ?thesis
      unfolding xs_def [symmetric] b_def [symmetric] n_def [symmetric] out
      by (simp add: concat_slices)
  qed
qed

lemma block_pos_Inr:
  assumes "0 < bs" and "block eos data bs = Inr out"
  shows "input_ids out =
           map (\<lambda>k. take (nat bs) (drop (k * nat bs) (concat (input_ids data))))
             [0 ..< length (concat (input_ids data)) div nat bs] @
           (if length (concat (input_ids data)) mod nat bs = 0 then []
            else [drop (length (concat (input_ids data)) div nat bs * nat bs) (concat (input_ids data))
                   @ replicate (nat bs - length (concat (input_ids data)) mod nat bs) eos])"
    and "labels out = input_ids out"
  using assms by (auto simp add: block_pos Let_def split: if_splits)

lemma block_nonempty:
  assumes "block eos data bs = Inr out"
  shows "input_ids out \<noteq> []"
  using assms
  by (auto simp add: block_def Let_def split: if_splits sum.splits)

lemma block_labels:
  assumes "block eos data bs = Inr out"
  shows "labels out = input_ids out"
  using assms
  by (auto simp add: block_def Let_def split: if_splits sum.splits)

lemma block_neg_multiple:
  assumes "bs < 0" and "int (length (concat (input_ids data))) mod bs = 0"
  shows "block eos data bs = Inl AssertionError"
proof -
  define n where "n = int (length (concat (input_ids data)))"
  define c where "c = - bs"
  have c: "0 < c" "bs = - c"
    using assms(1) by (simp_all add: c_def)
  have m: "n mod bs = 0"
    using assms(2) by (simp add: n_def)
  then have t: "n div bs * bs = n"
    by (simp add: mod_0_imp_dvd)
  have "bs dvd n"
    using m by (simp add: dvd_eq_mod_eq_0)
  then have "c dvd n"
    by (simp add: c_def)
  then obtain k where k: "n = k * c"
    by (auto simp add: dvd_def mult.commute)
  have "0 \<le> n" by (simp add: n_def)
  then have "0 \<le> k"
    using c(1) k by (simp add: zero_le_mult_iff)
  have "(0 - n - bs - 1) div (- bs) = (c - 1 + (- k) * c) div c"
    by (simp add: k c(2) algebra_simps)
  also have "\<dots> = (- k) + (c - 1) div c"
    using c(1) by (intro div_mult_self1) simp
  also have "(c - 1) div c = 0"
    using c(1) by (simp add: div_pos_pos_trivial)
  finally have z: "nat ((0 - n - bs - 1) div (- bs)) = 0"
    using \<open>0 \<le> k\<close> by simp
  show ?thesis
    using assms(1) m z
    unfolding block_def Let_def n_def [symmetric] t py_range_def
    by simp
qed

text \<open>The two examples of the specification, with \<open>0\<close> as the pad token.\<close>

lemma block_example_remainder:
  "block 0 \<lparr>input_ids = [[1, 2, 3], [4, 5]], labels = [[1, 2, 3], [4, 5]]\<rparr> 2
     = Inr \<lparr>input_ids = [[1, 2], [3, 4], [5, 0]], labels = [[1, 2], [3, 4], [5, 0]]\<rparr>"
  by code_simp

lemma block_example_exact:
  "block 0 \<lparr>input_ids = [[1, 2, 3, 4]], labels = [[1, 2, 3, 4]]\<rparr> 2
     = Inr \<lparr>input_ids = [[1, 2], [3, 4]], labels = [[1, 2], [3, 4]]\<rparr>"
  by code_simp

lemma block_example_empty:
  "block 0 \<lparr>input_ids = [], labels = []\<rparr> 2 = Inl AssertionError"
  by code_simp

lemma block_example_tokenized:
  "block 0 \<lparr>input_ids = [[7, 8, 0]], labels = [[7, 8, 0]]\<rparr> 2
     = Inr \<lparr>input_ids = [[7, 8], [0, 0]], labels = [[7, 8], [0, 0]]\<rparr>"
  by code_simp

section \<open>Shell arithmetic on group numbers\<close>

lemma sh_int_id:
  assumes "- (2 ^ 63) \<le> k" and "k < 2 ^ 63"
  shows "sh_int k = k"
  unfolding sh_int_def using assms by (rule signed_take_bit_int_eq_self)

lemma smod_nonneg:
  assumes "0 \<le> (k::int)" and "0 < l"
  shows "k smod l = k mod l"
  using assms by (cases "k = 0") (simp_all add: signed_modulo_int_def)

lemma digits_foldl_nonneg:
  assumes "list_all is_digit s" and "0 \<le> a"
  shows "0 \<le> foldl (\<lambda>a c. 10 * a + (of_char c - 48)) (a::int) s"
  using assms
proof (induction s arbitrary: a)
  case Nil
  then show ?case by simp
next
  case (Cons c s)
  from Cons.prems(1) have "48 \<le> (of_char c :: nat)"
    by (simp add: is_digit_def)
  moreover have "(of_char c :: int) = int (of_char c)"
    by (simp only: of_nat_of_char)
  ultimately have "(48::int) \<le> of_char c"
    by simp
  with Cons.prems(2) have "0 \<le> 10 * a + (of_char c - 48)"
    by simp
  with Cons.IH [of "10 * a + (of_char c - 48)"] Cons.prems(1) show ?case
    by simp
qed

lemma radix_value_nonneg:
  assumes "list_all is_digit s"
  shows "0 \<le> radix_value 10 s"
  unfolding radix_value_def using assms by (rule digits_foldl_nonneg) simp

text \<open>
  A decimal numeral without a leading zero, small enough for the port not to overflow:
  both expansions succeed, with the values one expects.
\<close>

lemma sh_arith_decimal:
  assumes "g \<noteq> []" and "list_all is_digit g" and "hd g \<noteq> CHR ''0''"
    and "radix_value 10 g < 2 ^ 63 - 8000"
  shows "sh_arith sh_expr g = Some (radix_value 10 g)"
proof -
  obtain c cs where g: "g = c # cs"
    using assms(1) by (cases g) auto
  have "0 \<le> radix_value 10 g"
    using assms(2) by (rule radix_value_nonneg)
  then have "sh_int (radix_value 10 g) = radix_value 10 g"
    using assms(4) by (intro sh_int_id) simp_all
  then show ?thesis
    using assms(1,2,3) by (simp add: sh_arith_def sh_constant_def g)
qed

text \<open>
  The two guards of the script test for exactly one and exactly two arguments: with
  three or more, neither fires and both defaults stay.
\<close>

lemma run_sh_three_arguments:
  "AI_GROUP (run_sh sh_expr (a # b # c # rest)) = ''1''
   \<and> AI_LOGIN (run_sh sh_expr (a # b # c # rest)) = ''set_notebook_password''"
  by (simp add: run_sh_def Let_def)

section \<open>Block packing: the properties of the specification\<close>

text \<open>
  Claim C1. For a positive block size and a token stream that is not empty,
  \<^verbatim>\<open>block\<close> returns at least one block, and every block it returns, the padded
  last one included, has exactly \<open>block_size\<close> tokens. (When the stream is empty
  no block is returned at all, see C2.)
\<close>

theorem block_uniform_length:
  assumes "0 < bs" and "concat (input_ids data) \<noteq> []"
  shows "\<exists>out. block eos data bs = Inr out \<and> input_ids out \<noteq> [] \<and>
           (\<forall>blk \<in> set (input_ids out). int (length blk) = bs)"
proof -
  obtain out where out: "block eos data bs = Inr out"
    using block_returns [OF assms] by blast
  define xs where "xs = concat (input_ids data)"
  define b where "b = nat bs"
  have b: "0 < b" "bs = int b"
    using assms(1) by (simp_all add: b_def)
  have ids: "input_ids out = map (\<lambda>k. take b (drop (k * b) xs)) [0 ..< length xs div b] @
      (if length xs mod b = 0 then []
       else [drop (length xs div b * b) xs @ replicate (b - length xs mod b) eos])"
    using block_pos_Inr(1) [OF assms(1) out] by (simp add: xs_def b_def)
  have "length blk = b" if "blk \<in> set (input_ids out)" for blk
  proof -
    from that consider k where "k < length xs div b" "blk = take b (drop (k * b) xs)"
      | "length xs mod b \<noteq> 0"
        "blk = drop (length xs div b * b) xs @ replicate (b - length xs mod b) eos"
      unfolding ids by (auto split: if_splits)
    then show ?thesis
    proof cases
      case 1
      then show ?thesis by (simp only: slice_length)
    next
      case 2
      have "length xs mod b < b"
        using b(1) by simp
      then show ?thesis
        unfolding 2(2) length_append rest_length length_replicate by simp
    qed
  qed
  with out block_nonempty [OF out] b(2) show ?thesis
    by auto
qed

theorem block_uniform_length_witness:
  "(0::int) < 2
   \<and> concat (input_ids \<lparr>input_ids = [[1, 2, 3], [4, 5]], labels = [[1, 2, 3], [4, 5]]\<rparr>) \<noteq> []
   \<and> block 0 \<lparr>input_ids = [[1, 2, 3], [4, 5]], labels = [[1, 2, 3], [4, 5]]\<rparr> 2
       = Inr \<lparr>input_ids = [[1, 2], [3, 4], [5, 0]], labels = [[1, 2], [3, 4], [5, 0]]\<rparr>
   \<and> map length [[1, 2], [3, 4], [5, 0::int]] = [2, 2, 2]"
proof -
  have h1: "(0::int) < 2"
    by simp
  have h2: "concat (input_ids \<lparr>input_ids = [[1, 2, 3], [4, 5]], labels = [[1, 2, 3], [4, 5]]\<rparr>) \<noteq> []"
    by simp
  from block_uniform_length [OF h1 h2, of 0] show ?thesis
    using h1 h2 by (simp add: block_example_remainder)
qed

text \<open>
  Claim C2. When the concatenated stream is empty (the empty collection, or a
  collection of empty sequences), \<^verbatim>\<open>block\<close> raises: \<^verbatim>\<open>AssertionError\<close>, or
  \<^verbatim>\<open>ZeroDivisionError\<close> when \<open>block_size\<close> is zero. When the stream is not
  empty and \<open>block_size\<close> is positive it returns, and whatever it returns is never an
  empty collection of blocks.
\<close>

theorem block_fails_iff_empty_stream:
  "(concat (input_ids data) = [] \<longrightarrow>
      block eos data bs = Inl (if bs = 0 then ZeroDivisionError else AssertionError))
   \<and> (concat (input_ids data) \<noteq> [] \<and> 0 < bs \<longrightarrow>
      (\<exists>out. block eos data bs = Inr out \<and> input_ids out \<noteq> []))
   \<and> (\<forall>out. block eos data bs = Inr out \<longrightarrow> input_ids out \<noteq> [])"
proof (intro conjI impI allI)
  assume "concat (input_ids data) = []"
  then show "block eos data bs = Inl (if bs = 0 then ZeroDivisionError else AssertionError)"
    by (rule block_empty_stream)
next
  assume "concat (input_ids data) \<noteq> [] \<and> 0 < bs"
  then obtain out where "block eos data bs = Inr out"
    using block_returns by blast
  then show "\<exists>out. block eos data bs = Inr out \<and> input_ids out \<noteq> []"
    using block_nonempty by blast
next
  fix out
  assume "block eos data bs = Inr out"
  then show "input_ids out \<noteq> []"
    by (rule block_nonempty)
qed

theorem block_fails_iff_empty_stream_witness:
  "concat (input_ids (\<lparr>input_ids = [], labels = []\<rparr> :: batch)) = []
   \<and> block 0 \<lparr>input_ids = [], labels = []\<rparr> 2 = Inl AssertionError
   \<and> concat (input_ids \<lparr>input_ids = [[1, 2, 3], [4, 5]], labels = [[1, 2, 3], [4, 5]]\<rparr>) \<noteq> [] \<and> (0::int) < 2
   \<and> (\<exists>out. block 0 \<lparr>input_ids = [[1, 2, 3], [4, 5]], labels = [[1, 2, 3], [4, 5]]\<rparr> 2 = Inr out
         \<and> input_ids out \<noteq> [])"
  using block_fails_iff_empty_stream [of "\<lparr>input_ids = [], labels = []\<rparr>" 0 2]
    block_fails_iff_empty_stream [of "\<lparr>input_ids = [[1, 2, 3], [4, 5]], labels = [[1, 2, 3], [4, 5]]\<rparr>" 0 2]
  by simp

text \<open>
  Claim C3. For a positive block size and a stream that is not empty, the first
  \<open>total_length\<close> tokens of the concatenation of the returned blocks are the
  concatenation of the input sequences, in input order.
\<close>

theorem block_roundtrip:
  assumes "0 < bs" and "concat (input_ids data) \<noteq> []"
  shows "\<exists>out. block eos data bs = Inr out \<and>
           take (length (concat (input_ids data))) (concat (input_ids out))
             = concat (input_ids data)"
proof -
  obtain out where out: "block eos data bs = Inr out"
    using block_returns [OF assms] by blast
  from block_stream [OF assms(1) out]
  have "take (length (concat (input_ids data))) (concat (input_ids out))
          = concat (input_ids data)"
    by simp
  with out show ?thesis
    by blast
qed

theorem block_roundtrip_witness:
  "(0::int) < 2
   \<and> concat (input_ids \<lparr>input_ids = [[1, 2, 3], [4, 5]], labels = [[1, 2, 3], [4, 5]]\<rparr>) \<noteq> []
   \<and> block 0 \<lparr>input_ids = [[1, 2, 3], [4, 5]], labels = [[1, 2, 3], [4, 5]]\<rparr> 2
       = Inr \<lparr>input_ids = [[1, 2], [3, 4], [5, 0]], labels = [[1, 2], [3, 4], [5, 0]]\<rparr>
   \<and> take 5 (concat [[1, 2], [3, 4], [5, 0::int]]) = [1, 2, 3, 4, 5]"
proof -
  have h1: "(0::int) < 2"
    by simp
  have h2: "concat (input_ids \<lparr>input_ids = [[1, 2, 3], [4, 5]], labels = [[1, 2, 3], [4, 5]]\<rparr>) \<noteq> []"
    by simp
  from block_roundtrip [OF h1 h2, of 0] show ?thesis
    using h1 h2 by (simp add: block_example_remainder)
qed

text \<open>
  Claim C4. Let \<open>q = total_length div block_size\<close> and
  \<open>r = total_length mod block_size\<close>, for a positive block size and a stream
  \<open>xs\<close> that is not empty. If \<open>0 < r\<close>, the result is the \<open>q\<close> slices of width
  \<open>block_size\<close> at the offsets \<open>0, block_size, 2 * block_size, ...\<close>, followed by
  one more block: the last \<open>r\<close> tokens of the stream, then \<open>block_size - r\<close> copies
  of the pad token. If \<open>r = 0\<close>, the result is the \<open>q\<close> slices and nothing else. Each
  slice is full.
\<close>

theorem block_layout:
  assumes "0 < bs" and "xs = concat (input_ids data)" and "xs \<noteq> []"
    and "b = nat bs" and "q = length xs div b" and "r = length xs mod b"
  shows "\<exists>out. block eos data bs = Inr out \<and>
           (0 < r \<longrightarrow>
              input_ids out = map (\<lambda>k. take b (drop (k * b) xs)) [0 ..< q]
                                @ [drop (q * b) xs @ replicate (b - r) eos]
              \<and> length (drop (q * b) xs) = r) \<and>
           (r = 0 \<longrightarrow>
              input_ids out = map (\<lambda>k. take b (drop (k * b) xs)) [0 ..< q]) \<and>
           (\<forall>k < q. length (take b (drop (k * b) xs)) = b)"
proof -
  obtain out where out: "block eos data bs = Inr out"
    using block_returns [of bs data eos] assms(1-3) by blast
  have ids: "input_ids out = map (\<lambda>k. take b (drop (k * b) xs)) [0 ..< q] @
      (if r = 0 then [] else [drop (q * b) xs @ replicate (b - r) eos])"
    using block_pos_Inr(1) [OF assms(1) out] by (simp add: assms(2,4,5,6))
  have "length (drop (q * b) xs) = r"
    unfolding assms(5,6) by (rule rest_length)
  moreover have "\<forall>k < q. length (take b (drop (k * b) xs)) = b"
  proof (intro allI impI)
    fix k
    assume "k < q"
    then show "length (take b (drop (k * b) xs)) = b"
      unfolding assms(5) by (rule slice_length)
  qed
  ultimately show ?thesis
    using out ids by auto
qed

theorem block_layout_witness:
  "(0::int) < 2
   \<and> (0::nat) < 5 mod 2
   \<and> block 0 \<lparr>input_ids = [[1, 2, 3], [4, 5]], labels = [[1, 2, 3], [4, 5]]\<rparr> 2
       = Inr \<lparr>input_ids = [[1, 2], [3, 4], [5, 0]], labels = [[1, 2], [3, 4], [5, 0]]\<rparr>
   \<and> map (\<lambda>k. take 2 (drop (k * 2) [1, 2, 3, 4, 5])) [0, 1]
           @ [drop (2 * 2) [1, 2, 3, 4, 5] @ replicate (2 - 1) 0]
       = [[1, 2], [3, 4], [5, 0::int]]
   \<and> (4::nat) mod 2 = 0
   \<and> block 0 \<lparr>input_ids = [[1, 2, 3, 4]], labels = [[1, 2, 3, 4]]\<rparr> 2
       = Inr \<lparr>input_ids = [[1, 2], [3, 4]], labels = [[1, 2], [3, 4]]\<rparr>
   \<and> map (\<lambda>k. take 2 (drop (k * 2) [1, 2, 3, 4])) [0, 1] = [[1, 2], [3, 4::int]]
   \<and> map (\<lambda>k. length (take 2 (drop (k * 2) [1, 2, 3, 4::int]))) [0, 1] = [2, 2]"
proof -
  have h: "(0::int) < 2"
    by simp
  have u: "[0 ..< 2] = [0, 1::nat]"
    by code_simp
  have "\<exists>out. block 0 \<lparr>input_ids = [[1, 2, 3], [4, 5]], labels = [[1, 2, 3], [4, 5]]\<rparr> 2 = Inr out \<and>
      ((0::nat) < 1 \<longrightarrow>
         input_ids out = map (\<lambda>k. take 2 (drop (k * 2) [1, 2, 3, 4, 5])) [0 ..< 2]
                           @ [drop (2 * 2) [1, 2, 3, 4, 5] @ replicate (2 - 1) 0]
         \<and> length (drop (2 * 2) [1, 2, 3, 4, 5::int]) = 1) \<and>
      ((1::nat) = 0 \<longrightarrow>
         input_ids out = map (\<lambda>k. take 2 (drop (k * 2) [1, 2, 3, 4, 5])) [0 ..< 2]) \<and>
      (\<forall>k < 2. length (take 2 (drop (k * 2) [1, 2, 3, 4, 5::int])) = 2)"
    by (rule block_layout [OF h]) simp_all
  then have a: "map (\<lambda>k. take 2 (drop (k * 2) [1, 2, 3, 4, 5])) [0, 1]
           @ [drop (2 * 2) [1, 2, 3, 4, 5] @ replicate (2 - 1) 0]
       = [[1, 2], [3, 4], [5, 0::int]]"
    unfolding u block_example_remainder by (simp add: eq_commute)
  have "\<exists>out. block 0 \<lparr>input_ids = [[1, 2, 3, 4]], labels = [[1, 2, 3, 4]]\<rparr> 2 = Inr out \<and>
      ((0::nat) < 0 \<longrightarrow>
         input_ids out = map (\<lambda>k. take 2 (drop (k * 2) [1, 2, 3, 4])) [0 ..< 2]
                           @ [drop (2 * 2) [1, 2, 3, 4] @ replicate (2 - 0) 0]
         \<and> length (drop (2 * 2) [1, 2, 3, 4::int]) = 0) \<and>
      ((0::nat) = 0 \<longrightarrow>
         input_ids out = map (\<lambda>k. take 2 (drop (k * 2) [1, 2, 3, 4])) [0 ..< 2]) \<and>
      (\<forall>k < 2. length (take 2 (drop (k * 2) [1, 2, 3, 4::int])) = 2)"
    by (rule block_layout [OF h]) simp_all
  then have b: "map (\<lambda>k. take 2 (drop (k * 2) [1, 2, 3, 4])) [0, 1] = [[1, 2], [3, 4::int]]"
    and c: "\<forall>k < 2. length (take 2 (drop (k * 2) [1, 2, 3, 4::int])) = 2"
    unfolding u block_example_exact by (simp_all add: eq_commute)
  from c have "map (\<lambda>k. length (take 2 (drop (k * 2) [1, 2, 3, 4::int]))) [0, 1] = [2, 2]"
    by simp
  with a b show ?thesis
    by (simp add: block_example_remainder block_example_exact)
qed

text \<open>
  Claim C5. When \<open>total_length\<close> is an exact multiple of \<open>block_size\<close>, whatever
  \<^verbatim>\<open>block\<close> returns holds no padding: the returned blocks are the slices of the
  stream and nothing else, and their concatenation is the stream itself. (The id that
  serves as pad token may still occur in the stream, see C9.) The statement needs no
  assumption on the sign of \<open>block_size\<close>: for a multiple, \<^verbatim>\<open>block\<close> only
  returns when \<open>block_size\<close> is positive.
\<close>

theorem block_exact_multiple_unpadded:
  assumes "int (length (concat (input_ids data))) mod bs = 0"
    and "block eos data bs = Inr out"
  shows "concat (input_ids out) = concat (input_ids data)
         \<and> 0 < bs
         \<and> input_ids out = map (\<lambda>k. take (nat bs) (drop (k * nat bs) (concat (input_ids data))))
                             [0 ..< length (concat (input_ids data)) div nat bs]"
proof -
  have "bs \<noteq> 0"
    using assms(2) by (auto simp add: block_def)
  moreover have "\<not> bs < 0"
    using block_neg_multiple [of bs data eos] assms by auto
  ultimately have pos: "0 < bs"
    by simp
  then have "int (length (concat (input_ids data)) mod nat bs) = 0"
    using assms(1) by (simp add: zmod_int)
  then have r: "length (concat (input_ids data)) mod nat bs = 0"
    by simp
  show ?thesis
    using block_stream [OF pos assms(2)] block_pos_Inr(1) [OF pos assms(2)] pos r
    by simp
qed

theorem block_exact_multiple_unpadded_witness:
  "int (length (concat (input_ids \<lparr>input_ids = [[1, 2, 3, 4]], labels = [[1, 2, 3, 4]]\<rparr>))) mod 2 = 0
   \<and> block 0 \<lparr>input_ids = [[1, 2, 3, 4]], labels = [[1, 2, 3, 4]]\<rparr> 2
       = Inr \<lparr>input_ids = [[1, 2], [3, 4]], labels = [[1, 2], [3, 4]]\<rparr>
   \<and> concat [[1, 2], [3, 4::int]] = concat [[1, 2, 3, 4]]"
proof -
  have h: "int (length (concat (input_ids \<lparr>input_ids = [[1, 2, 3, 4]], labels = [[1, 2, 3, 4]]\<rparr>))) mod 2 = 0"
    by simp
  from block_exact_multiple_unpadded [OF h block_example_exact] show ?thesis
    using h by (simp add: block_example_exact)
qed

text \<open>
  Claim C6. \<^verbatim>\<open>tokenize\<close> returns labels equal to its input ids, and in whatever
  \<^verbatim>\<open>block\<close> returns the labels are equal to the input ids, block by block.
\<close>

theorem labels_mirror_input_ids:
  "labels (tokenize encode eos row) = input_ids (tokenize encode eos row)
   \<and> (\<forall>out. block eos data bs = Inr out \<longrightarrow> labels out = input_ids out)"
  by (simp add: tokenize_def Let_def block_labels)

theorem labels_mirror_input_ids_witness:
  "block 0 \<lparr>input_ids = [[1, 2, 3], [4, 5]], labels = [[1, 2, 3], [4, 5]]\<rparr> 2
     = Inr \<lparr>input_ids = [[1, 2], [3, 4], [5, 0]], labels = [[1, 2], [3, 4], [5, 0]]\<rparr>
   \<and> labels (tokenize (\<lambda>s. [7, 8]) 0 \<lparr>source = ''f''\<rparr>) = [7, 8, 0]
   \<and> labels \<lparr>input_ids = [[1, 2], [3, 4], [5, 0]], labels = [[1, 2], [3, 4], [5, 0]]\<rparr>
       = input_ids \<lparr>input_ids = [[1, 2], [3, 4], [5, 0]], labels = [[1, 2], [3, 4], [5, 0]]\<rparr>"
  using labels_mirror_input_ids [of "\<lambda>s. [7, 8]" 0 "\<lparr>source = ''f''\<rparr>"
      "\<lparr>input_ids = [[1, 2, 3], [4, 5]], labels = [[1, 2, 3], [4, 5]]\<rparr>" 2]
  by (simp add: block_example_remainder tokenize_def Let_def)

text \<open>
  Claim C9. \<^verbatim>\<open>tokenize\<close> appends the end-of-sequence id to the encoded source, so
  every token sequence handed to \<^verbatim>\<open>block\<close> ends with it. \<^verbatim>\<open>block\<close> pads with
  the same id, and that id occurs among the first \<open>total_length\<close> tokens of its
  output, which are the tokens that are not padding.
\<close>

theorem eos_among_genuine_tokens:
  assumes "0 < bs" and "rows \<noteq> []"
    and "input_ids data = map (\<lambda>r. input_ids (tokenize encode eos r)) rows"
  shows "input_ids (tokenize encode eos row) = encode (source row) @ [eos]
       \<and> (\<forall>ids \<in> set (input_ids data). ids \<noteq> [] \<and> last ids = eos)
       \<and> (\<exists>out. block eos data bs = Inr out
             \<and> eos \<in> set (take (length (concat (input_ids data))) (concat (input_ids out))))"
proof -
  have tok: "input_ids (tokenize encode eos r) = encode (source r) @ [eos]" for r
    by (simp add: tokenize_def Let_def)
  have ends: "\<forall>ids \<in> set (input_ids data). ids \<noteq> [] \<and> last ids = eos"
    by (auto simp add: assms(3) tok)
  obtain r where "r \<in> set rows"
    using assms(2) by (cases rows) auto
  then have "encode (source r) @ [eos] \<in> set (input_ids data)"
    by (auto simp add: assms(3) tok)
  moreover have "eos \<in> set (encode (source r) @ [eos])"
    by simp
  ultimately have mem: "eos \<in> set (concat (input_ids data))"
    unfolding set_concat by (rule UN_I)
  have "concat (input_ids data) \<noteq> []"
  proof
    assume "concat (input_ids data) = []"
    with mem show False
      by (simp only: list.set empty_iff)
  qed
  then obtain out where out: "block eos data bs = Inr out"
    using block_returns [OF assms(1)] by blast
  have "take (length (concat (input_ids data))) (concat (input_ids out))
          = concat (input_ids data)"
    using block_stream [OF assms(1) out] by simp
  with mem out tok ends show ?thesis
    by auto
qed

theorem eos_among_genuine_tokens_witness:
  "(0::int) < 2
   \<and> [\<lparr>source = ''f''\<rparr>] \<noteq> []
   \<and> input_ids \<lparr>input_ids = [[7, 8, 0]], labels = [[7, 8, 0]]\<rparr>
       = map (\<lambda>r. input_ids (tokenize (\<lambda>s. [7, 8]) 0 r)) [\<lparr>source = ''f''\<rparr>]
   \<and> input_ids (tokenize (\<lambda>s. [7, 8]) 0 \<lparr>source = ''f''\<rparr>) = [7, 8, 0]
   \<and> block 0 \<lparr>input_ids = [[7, 8, 0]], labels = [[7, 8, 0]]\<rparr> 2
       = Inr \<lparr>input_ids = [[7, 8], [0, 0]], labels = [[7, 8], [0, 0]]\<rparr>
   \<and> (0::int) \<in> set (take 3 (concat [[7, 8], [0, 0]]))"
proof -
  have h1: "(0::int) < 2"
    by simp
  have h2: "[\<lparr>source = ''f''\<rparr>] \<noteq> []"
    by simp
  have h3: "input_ids \<lparr>input_ids = [[7, 8, 0]], labels = [[7, 8, 0]]\<rparr>
       = map (\<lambda>r. input_ids (tokenize (\<lambda>s. [7, 8]) 0 r)) [\<lparr>source = ''f''\<rparr>]"
    by (simp add: tokenize_def Let_def)
  from eos_among_genuine_tokens [OF h1 h2 h3, of "\<lparr>source = ''f''\<rparr>"] show ?thesis
    using h1 h2 h3 by (simp add: block_example_tokenized numeral_3_eq_3)
qed

section \<open>The launch script: the properties of the specification\<close>

text \<open>
  Claim C8, as amended. When the script is called with exactly one or exactly two
  arguments, and the first one, \<open>g\<close>, is a group number written as a decimal numeral
  without a leading zero (with \<open>8000 + g\<close> below \<open>2 ^ 63\<close>), then the GPU index is
  \<open>g mod 4\<close>, the host port is \<open>8000 + g\<close>, and the container is named
  \<^verbatim>\<open>ai4se-\<close> followed by the text of \<open>g\<close>.
\<close>

theorem launch_group_derivations:
  assumes "argv = [g] \<or> argv = [g, token]"
    and "g \<noteq> []" and "list_all is_digit g" and "hd g \<noteq> CHR ''0''"
    and "radix_value 10 g < 2 ^ 63 - 8000"
  shows "AI_GROUP (run_sh sh_expr argv) = g
       \<and> AI_GPU (run_sh sh_expr argv) = Some (radix_value 10 g mod 4)
       \<and> AI_PORT (run_sh sh_expr argv) = Some (8000 + radix_value 10 g)
       \<and> AI_CONTAINER_NAME (run_sh sh_expr argv) = ''ai4se-'' @ g"
proof -
  define v where "v = radix_value 10 g"
  have val: "sh_arith sh_expr g = Some v"
    unfolding v_def using assms(2-5) by (rule sh_arith_decimal)
  have nonneg: "0 \<le> v"
    unfolding v_def using assms(3) by (rule radix_value_nonneg)
  have small: "v < 2 ^ 63 - 8000"
    using assms(5) by (simp add: v_def)
  have m: "v smod 4 = v mod 4"
    using nonneg by (simp add: smod_nonneg)
  have "0 \<le> v mod 4" "v mod 4 < 4"
    by simp_all
  then have gpu: "sh_int (v mod 4) = v mod 4"
    by (intro sh_int_id) simp_all
  have port: "sh_int (8000 + v) = 8000 + v"
    using nonneg small by (intro sh_int_id) simp_all
  show ?thesis
    unfolding v_def [symmetric]
    using assms(1) val m gpu port by (auto simp add: run_sh_def)
qed

theorem launch_group_derivations_witness:
  "''5'' \<noteq> [] \<and> list_all is_digit ''5'' \<and> hd ''5'' \<noteq> CHR ''0''
   \<and> radix_value 10 ''5'' < 2 ^ 63 - 8000
   \<and> AI_GROUP (run_sh (\<lambda>s. None) [''5'', ''secret'']) = ''5''
   \<and> AI_GPU (run_sh (\<lambda>s. None) [''5'', ''secret'']) = Some 1
   \<and> AI_PORT (run_sh (\<lambda>s. None) [''5'', ''secret'']) = Some 8005
   \<and> AI_CONTAINER_NAME (run_sh (\<lambda>s. None) [''5'', ''secret'']) = ''ai4se-5''
   \<and> AI_GPU (run_sh (\<lambda>s. None) [''5'']) = Some 1
   \<and> AI_PORT (run_sh (\<lambda>s. None) [''5'']) = Some 8005
   \<and> AI_CONTAINER_NAME (run_sh (\<lambda>s. None) [''5'']) = ''ai4se-5''"
proof -
  have v: "radix_value 10 ''5'' = 5"
    by (simp add: radix_value_def)
  have h1: "[''5'', ''secret''] = [''5''] \<or> [''5'', ''secret''] = [''5'', ''secret'']"
    by simp
  have h1': "[''5''] = [''5''] \<or> [''5''] = [''5'', ''secret'']"
    by simp
  have h2: "''5'' \<noteq> []" and h3: "list_all is_digit ''5''" and h4: "hd ''5'' \<noteq> CHR ''0''"
    by (simp_all add: is_digit_def)
  have h5: "radix_value 10 ''5'' < 2 ^ 63 - 8000"
    by (simp add: v)
  from launch_group_derivations
         [of "[''5'', ''secret'']" "''5''" "''secret''" "\<lambda>s. None", OF h1 h2 h3 h4 h5]
    launch_group_derivations
         [of "[''5'']" "''5''" "''secret''" "\<lambda>s. None", OF h1' h2 h3 h4 h5]
  show ?thesis
    using h2 h3 h4 h5 by (simp add: v)
qed

text \<open>
  The claim as it is worded, for every group number given as the first argument, does
  not hold. Called as \<^verbatim>\<open>run.sh 7 x y\<close> the script keeps group \<^verbatim>\<open>1\<close>: GPU 1, port
  8001, container \<^verbatim>\<open>ai4se-1\<close>, where the claim says GPU 3, port 8007 and
  \<^verbatim>\<open>ai4se-7\<close>. Called as \<^verbatim>\<open>run.sh 08\<close> both expansions fail, and neither a GPU
  index nor a port is computed.
\<close>

theorem launch_group_derivations_counterexample:
  "AI_GROUP (run_sh (\<lambda>s. None) [''7'', ''x'', ''y'']) = ''1''
   \<and> AI_GPU (run_sh (\<lambda>s. None) [''7'', ''x'', ''y'']) = Some 1
   \<and> AI_PORT (run_sh (\<lambda>s. None) [''7'', ''x'', ''y'']) = Some 8001
   \<and> AI_CONTAINER_NAME (run_sh (\<lambda>s. None) [''7'', ''x'', ''y'']) = ''ai4se-1''
   \<and> AI_GPU (run_sh (\<lambda>s. None) [''08'']) = None
   \<and> AI_PORT (run_sh (\<lambda>s. None) [''08'']) = None"
  by (simp add: run_sh_def Let_def sh_arith_def sh_constant_def is_digit_def
        is_octal_digit_def radix_value_def sh_int_def signed_modulo_int_def)


end
